theory Spec2Isabelle
  imports Complex_Main "HOL-Library.Sublist"
begin

section \<open>Data model\<close>

text \<open>
  The policy of \<^verbatim>\<open>StudentSolution.cpp\<close> works on the regions and canals owned by the
  \<^verbatim>\<open>AcequiaManager\<close>. A C++ \<^verbatim>\<open>double\<close> is modelled as a \<^typ>\<open>real\<close>: every
  quantity is a finite number (no NaN, no infinity), and comparisons, \<open>min\<close>, \<open>max\<close>, sums,
  differences and products are those of the reals. The one quotient of the policy,
  \<^verbatim>\<open>amount / 3.6\<close>, decides a branch by its rounding (it underflows to zero for the
  smallest amounts), so the division is not that of the reals: it is a parameter of
  \<open>scheduleTransfer\<close> and of every function that calls it. A pointer is
  an address (\<^typ>\<open>nat\<close>), a possibly null pointer an \<^typ>\<open>nat option\<close> with \<open>None\<close> for
  \<^verbatim>\<open>nullptr\<close>, and the objects pointed to live in two stores of the manager.

  The classes \<^verbatim>\<open>Region\<close>, \<^verbatim>\<open>Canal\<close> and \<^verbatim>\<open>AcequiaManager\<close> are declared in
  \<^verbatim>\<open>acequia_manager.h\<close>; the records have the members that the policy reads and
  writes. The member \<^verbatim>\<open>name\<close> of a canal is \<open>canalName\<close>, since a region has a
  \<open>name\<close> too; \<open>flowRate\<close> and \<open>isOpen\<close> are what \<^verbatim>\<open>setFlowRate\<close> and
  \<^verbatim>\<open>toggleOpen\<close> set.
\<close>

record Region =
  name :: string
  waterLevel :: real
  waterNeed :: real
  waterCapacity :: real

record Canal =
  canalName :: string
  flowRate :: real
  isOpen :: bool

type_synonym ptr = nat

record Manager =
  regions :: "ptr list"
  canals :: "ptr list"
  regionHeap :: "ptr \<Rightarrow> Region"
  canalHeap :: "ptr \<Rightarrow> Canal"
  isSolved :: bool
  hour :: int
  SimulationMax :: int

section \<open>Surplus and deficit of a region\<close>

text \<open>\<^verbatim>\<open>computeSafeSurplus(Region* r)\<close>, lines 7 to 25; the argument is the region read
  through the pointer, \<open>None\<close> for a null pointer.\<close>

definition computeSafeSurplus :: "Region option \<Rightarrow> real" where
  "computeSafeSurplus r =
     (case r of
        None \<Rightarrow> 0
      | Some reg \<Rightarrow>
          (let minLevelByNeed = 0.8 * waterNeed reg;
               minLevelByCap = 0.3 * waterCapacity reg;
               minLevel = max minLevelByNeed minLevelByCap
           in if waterLevel reg \<le> minLevel then 0
              else (let keepLevel = max minLevel (waterNeed reg)
                    in if waterLevel reg \<le> keepLevel then 0
                       else waterLevel reg - keepLevel)))"

text \<open>\<^verbatim>\<open>computeDeficit(Region* r)\<close>, lines 27 to 34.\<close>

definition computeDeficit :: "Region option \<Rightarrow> real" where
  "computeDeficit r =
     (case r of
        None \<Rightarrow> 0
      | Some reg \<Rightarrow>
          (if waterLevel reg \<ge> waterNeed reg then 0
           else waterNeed reg - waterLevel reg))"

section \<open>Canal commands\<close>

text \<open>
  Modelled from the spec: the mutators \<^verbatim>\<open>Canal::setFlowRate(double)\<close> and
  \<^verbatim>\<open>Canal::toggleOpen(bool)\<close> are declared in \<^verbatim>\<open>acequia_manager.h\<close>, which is not
  part of the sources. The specification gives a canal "a settable flow-rate magnitude"
  and "a settable open/closed boolean gate": each mutator stores its argument in the
  canal it is called on and changes nothing else.
\<close>

definition setFlowRate :: "ptr \<Rightarrow> real \<Rightarrow> Manager \<Rightarrow> Manager" where
  "setFlowRate c rate m =
     m\<lparr>canalHeap := (canalHeap m)(c := (canalHeap m c)\<lparr>flowRate := rate\<rparr>)\<rparr>"

definition toggleOpen :: "ptr \<Rightarrow> bool \<Rightarrow> Manager \<Rightarrow> Manager" where
  "toggleOpen c b m =
     m\<lparr>canalHeap := (canalHeap m)(c := (canalHeap m c)\<lparr>isOpen := b\<rparr>)\<rparr>"

text \<open>\<^verbatim>\<open>closeAllCanals(const std::vector<Canal*>& canals)\<close>, lines 37 to 43: the loop over
  the vector is a recursion over the list of pointers.\<close>

fun closeAllCanals :: "ptr list \<Rightarrow> Manager \<Rightarrow> Manager" where
  "closeAllCanals [] m = m"
| "closeAllCanals (c # cs) m = closeAllCanals cs (toggleOpen c False (setFlowRate c 0 m))"

text \<open>\<^verbatim>\<open>scheduleTransfer(Canal* canal, double amount)\<close>, lines 46 to 61. The local
  \<^verbatim>\<open>flowRate\<close> is assigned twice; \<open>rate\<close> is its first value and \<open>clamped\<close> its
  second. \<open>fdiv\<close> is the division of doubles of line 54: nothing is assumed of it here, so
  the guard of line 57 can be taken when the amount is positive.\<close>

definition scheduleTransfer ::
  "(real \<Rightarrow> real \<Rightarrow> real) \<Rightarrow> ptr option \<Rightarrow> real \<Rightarrow> Manager \<Rightarrow> Manager" where
  "scheduleTransfer fdiv canal amount m =
     (case canal of
        None \<Rightarrow> m
      | Some c \<Rightarrow>
          if amount \<le> 0 then m
          else (let rate = fdiv amount 3.6;
                    clamped = (if rate > 1 then 1 else rate)
                in if clamped \<le> 0 then m
                   else toggleOpen c True (setFlowRate c clamped m)))"

section \<open>The pairwise transfer\<close>

text \<open>The lambda \<^verbatim>\<open>tryTransfer\<close> of \<^verbatim>\<open>solveProblems\<close>, lines 105 to 132.
  \<^verbatim>\<open>std::min({need, surplus, maxBeforeFlood * 0.8})\<close> is the least of the three.\<close>

definition tryTransfer ::
  "(real \<Rightarrow> real \<Rightarrow> real) \<Rightarrow> ptr option \<Rightarrow> ptr option \<Rightarrow> ptr option \<Rightarrow> Manager \<Rightarrow> Manager"
  where
  "tryTransfer fdiv src dst canal m =
     (case src of None \<Rightarrow> m | Some s \<Rightarrow>
      case dst of None \<Rightarrow> m | Some d \<Rightarrow>
      case canal of None \<Rightarrow> m | Some c \<Rightarrow>
        (let need = computeDeficit (Some (regionHeap m d));
             surplus = computeSafeSurplus (Some (regionHeap m s))
         in if need \<le> 0 \<or> surplus \<le> 0 then m
            else (let maxBeforeFlood =
                        waterCapacity (regionHeap m d) - waterLevel (regionHeap m d)
                  in if maxBeforeFlood \<le> 0 then m
                     else (let amount = min need (min surplus (maxBeforeFlood * 0.8))
                           in if amount \<le> 0 then m
                              else scheduleTransfer fdiv (Some c) amount m))))"

section \<open>Resolving the topology by name\<close>

text \<open>The seven pointers that \<^verbatim>\<open>solveProblems\<close> looks up, lines 82 to 95.\<close>

record Topology =
  north :: "ptr option"
  south :: "ptr option"
  east :: "ptr option"
  canalA :: "ptr option"
  canalB :: "ptr option"
  canalC :: "ptr option"
  canalD :: "ptr option"

definition nullTopology :: Topology where
  "nullTopology =
     \<lparr>north = None, south = None, east = None,
      canalA = None, canalB = None, canalC = None, canalD = None\<rparr>"

text \<open>\<^verbatim>\<open>std::string::find\<close> with a string argument: the position of the first
  occurrence, \<open>None\<close> for \<^verbatim>\<open>npos\<close>.\<close>

fun str_find :: "string \<Rightarrow> string \<Rightarrow> nat option" where
  "str_find [] k = (if k = [] then Some 0 else None)"
| "str_find (x # xs) k =
     (if prefix k (x # xs) then Some 0 else map_option Suc (str_find xs k))"

text \<open>The loop over the regions, lines 86 to 90: a later region of the same name
  overwrites an earlier one.\<close>

fun findRegions :: "(ptr \<Rightarrow> Region) \<Rightarrow> ptr list \<Rightarrow> Topology \<Rightarrow> Topology" where
  "findRegions h [] t = t"
| "findRegions h (r # rs) t =
     findRegions h rs
       (if name (h r) = ''North'' then t\<lparr>north := Some r\<rparr>
        else if name (h r) = ''South'' then t\<lparr>south := Some r\<rparr>
        else if name (h r) = ''East'' then t\<lparr>east := Some r\<rparr>
        else t)"

text \<open>The loop over the canals, lines 97 to 102: the first key found in the name, in
  the order A, B, C, D, decides the role.\<close>

fun findCanals :: "(ptr \<Rightarrow> Canal) \<Rightarrow> ptr list \<Rightarrow> Topology \<Rightarrow> Topology" where
  "findCanals h [] t = t"
| "findCanals h (c # cs) t =
     findCanals h cs
       (if str_find (canalName (h c)) ''A'' \<noteq> None then t\<lparr>canalA := Some c\<rparr>
        else if str_find (canalName (h c)) ''B'' \<noteq> None then t\<lparr>canalB := Some c\<rparr>
        else if str_find (canalName (h c)) ''C'' \<noteq> None then t\<lparr>canalC := Some c\<rparr>
        else if str_find (canalName (h c)) ''D'' \<noteq> None then t\<lparr>canalD := Some c\<rparr>
        else t)"

section \<open>The hourly loop\<close>

text \<open>The sums of lines 69 to 74, accumulated from \<open>(0, 0)\<close>.\<close>

fun sumTotals :: "(ptr \<Rightarrow> Region) \<Rightarrow> ptr list \<Rightarrow> real \<times> real \<Rightarrow> real \<times> real" where
  "sumTotals h [] acc = acc"
| "sumTotals h (r # rs) (totalWater, totalNeed) =
     sumTotals h rs (totalWater + waterLevel (h r), totalNeed + waterNeed (h r))"

text \<open>The two lines written to \<^verbatim>\<open>std::cout\<close>, lines 77 and 78.\<close>

definition notice :: "string list" where
  "notice =
     [''>>> Scenario determined unwinnable based on initial conditions.'',
      ''>>> Simulation will run, but a perfect solution is impossible.'']"

text \<open>The body of the loop before \<^verbatim>\<open>manager.nexthour()\<close>, lines 138 to 145.\<close>

definition hourPass ::
  "(real \<Rightarrow> real \<Rightarrow> real) \<Rightarrow> Topology \<Rightarrow> ptr list \<Rightarrow> Manager \<Rightarrow> Manager" where
  "hourPass fdiv t cs m =
     (let m0 = closeAllCanals cs m;
          m1 = tryTransfer fdiv (north t) (south t) (canalA t) m0;
          m2 = tryTransfer fdiv (north t) (east t) (canalC t) m1;
          m3 = tryTransfer fdiv (south t) (east t) (canalB t) m2
      in tryTransfer fdiv (east t) (north t) (canalD t) m3)"

text \<open>
  The loop of lines 135 to 152. \<^verbatim>\<open>AcequiaManager::nexthour\<close> belongs to the engine and is
  not part of the sources: it is the parameter \<open>nexthour\<close>. Nothing in the loop bounds the
  number of iterations for an arbitrary engine, so the loop carries fuel: \<open>None\<close> means
  that the fuel ran out before the loop condition became false.
\<close>

fun hourLoop ::
  "nat \<Rightarrow> (real \<Rightarrow> real \<Rightarrow> real) \<Rightarrow> (Manager \<Rightarrow> Manager) \<Rightarrow> Topology \<Rightarrow> ptr list
     \<Rightarrow> Manager \<Rightarrow> Manager option" where
  "hourLoop 0 fdiv nexthour t cs m =
     (if \<not> isSolved m \<and> hour m \<noteq> SimulationMax m then None else Some m)"
| "hourLoop (Suc fuel) fdiv nexthour t cs m =
     (if \<not> isSolved m \<and> hour m \<noteq> SimulationMax m
      then hourLoop fuel fdiv nexthour t cs (nexthour (hourPass fdiv t cs m))
      else Some m)"

text \<open>\<^verbatim>\<open>solveProblems(AcequiaManager& manager)\<close>, lines 63 to 153: the lines written to
  the standard output, and the manager when the loop ends.\<close>

definition solveProblems ::
  "nat \<Rightarrow> (real \<Rightarrow> real \<Rightarrow> real) \<Rightarrow> (Manager \<Rightarrow> Manager) \<Rightarrow> Manager
     \<Rightarrow> string list \<times> Manager option" where
  "solveProblems fuel fdiv nexthour manager =
     (let rs = regions manager;
          cs = canals manager;
          (totalWater, totalNeed) = sumTotals (regionHeap manager) rs (0, 0);
          out = (if totalWater < totalNeed then notice else []);
          t = findCanals (canalHeap manager) cs
                (findRegions (regionHeap manager) rs nullTopology)
      in (out, hourLoop fuel fdiv nexthour t cs manager))"

section \<open>The division of doubles\<close>

text \<open>
  The division that the compiled policy runs: the quotient of the reals rounded to the
  nearest binary64 number, ties to the even significand (IEEE 754). A binary64 number
  is an integer multiple of \<open>2 ^ (e - 52)\<close> with \<open>e\<close> the exponent of the value, at least
  \<open>-1022\<close>; below \<open>2 ^ -1022\<close> the numbers are the multiples of \<open>2 ^ -1074\<close>, so a quotient
  of at most half of that is zero. Overflow is left out: \<^verbatim>\<open>amount / 3.6\<close> is smaller than
  the finite \<^verbatim>\<open>amount\<close>.

  The divisor of line 54 is the double of the literal 3.6, larger than 3.6 by less than
  \<open>10 ^ -16\<close>; the quotient below is taken by 3.6 itself. Either way the doubles of at
  most 3.6 have quotients of at most 1, the doubles above 3.6 have quotients of at least
  1, and the smallest positive double has the quotient 0.
\<close>

definition roundEven :: "real \<Rightarrow> int" where
  "roundEven x =
     (let f = \<lfloor>x\<rfloor>; d = x - of_int f
      in if d < 1 / 2 then f
         else if d > 1 / 2 then f + 1
         else if even f then f else f + 1)"

definition round_double :: "real \<Rightarrow> real" where
  "round_double x =
     (if x = 0 then 0
      else (let e = max \<lfloor>log 2 \<bar>x\<bar>\<rfloor> (- 1022);
                q = 2 powr (of_int e - 52)
            in q * of_int (roundEven (x / q))))"

definition double_div :: "real \<Rightarrow> real \<Rightarrow> real" where
  "double_div x y = round_double (x / y)"

text \<open>The smallest positive double.\<close>

definition denorm_min :: real where
  "denorm_min = 2 powr (- 1074)"

section \<open>Scenarios\<close>

text \<open>The regions of the scenario of the specification.\<close>

definition northR :: Region where
  "northR = \<lparr>name = ''North'', waterLevel = 100, waterNeed = 50, waterCapacity = 200\<rparr>"

definition southR :: Region where
  "southR = \<lparr>name = ''South'', waterLevel = 10, waterNeed = 80, waterCapacity = 100\<rparr>"

definition eastR :: Region where
  "eastR = \<lparr>name = ''East'', waterLevel = 50, waterNeed = 50, waterCapacity = 100\<rparr>"

text \<open>A manager over these regions and four canals named \<open>Canal A\<close> to \<open>Canal D\<close>, all
  open at full rate, in its third hour of five. The policy looks a canal up by a key
  inside its name, where it looks a region up by its whole name: a canal name is longer
  than its key.\<close>

definition regionStore :: "ptr \<Rightarrow> Region" where
  "regionStore p = (if p = 0 then northR else if p = 1 then southR else eastR)"

definition canalStore :: "ptr \<Rightarrow> Canal" where
  "canalStore p =
     \<lparr>canalName = (if p = 0 then ''Canal A'' else if p = 1 then ''Canal B''
                   else if p = 2 then ''Canal C'' else ''Canal D''),
      flowRate = 1, isOpen = True\<rparr>"

definition acequia :: Manager where
  "acequia =
     \<lparr>regions = [0, 1, 2], canals = [0, 1, 2, 3],
      regionHeap = regionStore, canalHeap = canalStore,
      isSolved = False, hour = 3, SimulationMax = 5\<rparr>"

text \<open>The seven pointers as the comments of lines 92 to 95 intend them for the
  collections \<open>[0, 1, 2]\<close> and \<open>[0, 1, 2, 3]\<close>.\<close>

definition intendedTopology :: Topology where
  "intendedTopology =
     \<lparr>north = Some 0, south = Some 1, east = Some 2,
      canalA = Some 0, canalB = Some 1, canalC = Some 2, canalD = Some 3\<rparr>"

text \<open>A manager whose North region has a small surplus while South and East are both
  far below their needs.\<close>

definition thirstyStore :: "ptr \<Rightarrow> Region" where
  "thirstyStore p =
     (if p = 0
      then \<lparr>name = ''North'', waterLevel = 62, waterNeed = 50, waterCapacity = 200\<rparr>
      else if p = 1
      then \<lparr>name = ''South'', waterLevel = 10, waterNeed = 80, waterCapacity = 100\<rparr>
      else \<lparr>name = ''East'', waterLevel = 10, waterNeed = 50, waterCapacity = 100\<rparr>)"

definition thirsty :: Manager where
  "thirsty =
     \<lparr>regions = [0, 1, 2], canals = [0, 1, 2, 3],
      regionHeap = thirstyStore, canalHeap = canalStore,
      isSolved = False, hour = 0, SimulationMax = 1\<rparr>"

text \<open>An engine step that only advances the hour.\<close>

definition tick :: "Manager \<Rightarrow> Manager" where
  "tick m = m\<lparr>hour := hour m + 1\<rparr>"

section \<open>Properties of surplus and deficit\<close>

lemma keep_chain:
  "(if (l::real) \<le> max a b then 0
    else if l \<le> max (max a b) n then 0 else l - max (max a b) n)
   = (if l \<le> max (max a b) n then 0 else l - max (max a b) n)"
  by (simp add: le_max_iff_disj)

lemma computeSafeSurplus_Some:
  "computeSafeSurplus (Some reg) =
     (if waterLevel reg \<le> max (max (0.8 * waterNeed reg) (0.3 * waterCapacity reg)) (waterNeed reg)
      then 0
      else waterLevel reg
             - max (max (0.8 * waterNeed reg) (0.3 * waterCapacity reg)) (waterNeed reg))"
  unfolding computeSafeSurplus_def Let_def option.case by (rule keep_chain)

lemma keep_nonneg: "0 \<le> (if (l::real) \<le> k then 0 else l - k)"
  by simp

lemma computeSafeSurplus_nonneg: "0 \<le> computeSafeSurplus r"
proof (cases r)
  case None
  then show ?thesis by (simp add: computeSafeSurplus_def)
next
  case (Some reg)
  show ?thesis unfolding Some computeSafeSurplus_Some by (rule keep_nonneg)
qed

lemma surplus_zero_below_need:
  "waterLevel reg < waterNeed reg \<Longrightarrow> computeSafeSurplus (Some reg) = 0"
  unfolding computeSafeSurplus_Some
  by (simp only: le_max_iff_disj less_imp_le if_True simp_thms)

lemma computeDeficit_Some:
  "computeDeficit (Some reg) =
     (if waterLevel reg \<ge> waterNeed reg then 0 else waterNeed reg - waterLevel reg)"
  by (simp add: computeDeficit_def)

lemma computeDeficit_nonneg: "0 \<le> computeDeficit r"
  by (cases r) (simp_all add: computeDeficit_def)

lemma Max3: "Max {a, b, c::real} = max (max a b) c"
  by (simp add: max.assoc)

text \<open>
  C3. The safe surplus of a region is zero when its level is at most
  \<open>max (0.8 * need, 0.3 * capacity, need)\<close>, and is the level minus
  \<open>max (max (0.8 * need) (0.3 * capacity)) need\<close> otherwise; it is never negative, and a
  null region pointer has surplus zero.
\<close>

theorem computeSafeSurplus_spec:
  "computeSafeSurplus None = 0
   \<and> 0 \<le> computeSafeSurplus r
   \<and> computeSafeSurplus (Some reg) =
       (if waterLevel reg
             \<le> Max {0.8 * waterNeed reg, 0.3 * waterCapacity reg, waterNeed reg}
        then 0
        else waterLevel reg
               - max (max (0.8 * waterNeed reg) (0.3 * waterCapacity reg)) (waterNeed reg))"
proof -
  have "computeSafeSurplus None = 0"
    by (simp add: computeSafeSurplus_def)
  moreover have "0 \<le> computeSafeSurplus r"
    by (rule computeSafeSurplus_nonneg)
  ultimately show ?thesis
    unfolding Max3 by (simp only: computeSafeSurplus_Some simp_thms)
qed

theorem computeSafeSurplus_spec_witness:
  "computeSafeSurplus (Some northR) = 40 \<and> computeSafeSurplus (Some eastR) = 0
   \<and> computeSafeSurplus None = 0"
  using computeSafeSurplus_spec [of "Some northR" northR]
    computeSafeSurplus_spec [of None eastR]
  by (simp add: northR_def eastR_def)

text \<open>
  C4. The deficit of a region is zero when its level is at least its need, and the need
  minus the level otherwise; it is never negative, and a null region pointer has deficit
  zero.
\<close>

theorem computeDeficit_spec:
  "computeDeficit None = 0
   \<and> 0 \<le> computeDeficit r
   \<and> computeDeficit (Some reg) =
       (if waterLevel reg \<ge> waterNeed reg then 0 else waterNeed reg - waterLevel reg)"
proof -
  have "computeDeficit None = 0"
    by (simp add: computeDeficit_def)
  then show ?thesis
    using computeDeficit_nonneg [of r] computeDeficit_Some [of reg] by simp
qed

theorem computeDeficit_spec_witness:
  "computeDeficit (Some southR) = 70 \<and> computeDeficit (Some northR) = 0
   \<and> computeDeficit None = 0"
  using computeDeficit_spec [of "Some southR" southR] computeDeficit_spec [of None northR]
  by (simp add: southR_def northR_def)

text \<open>
  C9. No region has a positive safe surplus and a positive deficit at once: the smaller
  of the two is zero, for a null region pointer too.
\<close>

theorem surplus_deficit_exclusive:
  "min (computeSafeSurplus r) (computeDeficit r) = 0"
proof (cases r)
  case None
  then show ?thesis
    by (simp add: computeSafeSurplus_def computeDeficit_def)
next
  case (Some reg)
  show ?thesis
  proof (cases "waterLevel reg \<ge> waterNeed reg")
    case True
    then have "computeDeficit r = 0"
      using Some by (simp add: computeDeficit_def)
    then show ?thesis
      using computeSafeSurplus_nonneg [of r] by simp
  next
    case False
    then have "computeSafeSurplus r = 0"
      using Some by (simp add: surplus_zero_below_need)
    then show ?thesis
      using computeDeficit_nonneg [of r] by simp
  qed
qed

theorem surplus_deficit_exclusive_witness:
  "min (computeSafeSurplus (Some southR)) (computeDeficit (Some southR)) = 0
   \<and> computeDeficit (Some southR) = 70"
  using surplus_deficit_exclusive [of "Some southR"]
  by (simp add: southR_def computeDeficit_def)

section \<open>Canal reset and flow-rate conversion\<close>

lemma close_one:
  "toggleOpen c False (setFlowRate c 0 m) =
     m\<lparr>canalHeap := (canalHeap m)(c := (canalHeap m c)\<lparr>flowRate := 0, isOpen := False\<rparr>)\<rparr>"
  by (simp add: setFlowRate_def toggleOpen_def)

lemma closeAllCanals_eq:
  "closeAllCanals cs m =
     m\<lparr>canalHeap := (\<lambda>p. if p \<in> set cs then (canalHeap m p)\<lparr>flowRate := 0, isOpen := False\<rparr>
                        else canalHeap m p)\<rparr>"
proof (induction cs arbitrary: m)
  case Nil
  show ?case by simp
next
  case (Cons c cs)
  have "(\<lambda>p. if p \<in> set cs
             then (((canalHeap m)(c := (canalHeap m c)\<lparr>flowRate := 0, isOpen := False\<rparr>)) p)
                    \<lparr>flowRate := 0, isOpen := False\<rparr>
             else ((canalHeap m)(c := (canalHeap m c)\<lparr>flowRate := 0, isOpen := False\<rparr>)) p)
        = (\<lambda>p. if p \<in> set (c # cs) then (canalHeap m p)\<lparr>flowRate := 0, isOpen := False\<rparr>
                else canalHeap m p)"
    by (auto simp: fun_eq_iff)
  then show ?case
    unfolding closeAllCanals.simps Cons.IH close_one by (simp cong: if_cong)
qed

lemma closed_twice:
  "(\<lambda>p. if p \<in> S then ((if p \<in> S then (h p)\<lparr>flowRate := 0, isOpen := False\<rparr> else h p))
                          \<lparr>flowRate := 0, isOpen := False\<rparr>
         else (if p \<in> S then (h p)\<lparr>flowRate := 0, isOpen := False\<rparr> else h p))
   = (\<lambda>p. if p \<in> S then (h p)\<lparr>flowRate := 0, isOpen := False\<rparr> else h p)"
  by (auto simp: fun_eq_iff)

text \<open>
  C8. Closing all canals twice gives the same manager as closing them once, whatever the
  canals were before, and after the reset every canal of the collection is closed with
  rate zero.
\<close>

theorem closeAllCanals_idempotent:
  "closeAllCanals cs (closeAllCanals cs m) = closeAllCanals cs m
   \<and> (\<forall>c \<in> set cs. flowRate (canalHeap (closeAllCanals cs m) c) = 0
                    \<and> \<not> isOpen (canalHeap (closeAllCanals cs m) c))"
proof
  show "closeAllCanals cs (closeAllCanals cs m) = closeAllCanals cs m"
    unfolding closeAllCanals_eq by (simp add: closed_twice cong: if_cong)
  show "\<forall>c \<in> set cs. flowRate (canalHeap (closeAllCanals cs m) c) = 0
                    \<and> \<not> isOpen (canalHeap (closeAllCanals cs m) c)"
    by (simp add: closeAllCanals_eq)
qed

theorem closeAllCanals_idempotent_witness:
  "(2::nat) \<in> set [0, 1, 2, 3]
   \<and> closeAllCanals [0, 1, 2, 3] (closeAllCanals [0, 1, 2, 3] acequia)
       = closeAllCanals [0, 1, 2, 3] acequia
   \<and> flowRate (canalHeap (closeAllCanals [0, 1, 2, 3] acequia) 2) = 0
   \<and> \<not> isOpen (canalHeap (closeAllCanals [0, 1, 2, 3] acequia) 2)
   \<and> isOpen (canalHeap acequia 2)"
  using closeAllCanals_idempotent [of "[0, 1, 2, 3]" acequia]
  by (simp add: acequia_def canalStore_def)

lemma scheduleTransfer_eq:
  "scheduleTransfer fdiv (Some c) amount m =
     (if amount \<le> 0 \<or> fdiv amount 3.6 \<le> 0 then m
      else m\<lparr>canalHeap := (canalHeap m)
               (c := (canalHeap m c)\<lparr>flowRate := min (fdiv amount 3.6) 1, isOpen := True\<rparr>)\<rparr>)"
  by (auto simp: scheduleTransfer_def Let_def setFlowRate_def toggleOpen_def min_def)

subsection \<open>The rounded quotient\<close>

lemma roundEven_le: "t \<le> of_int N \<Longrightarrow> roundEven t \<le> N"
proof -
  assume t: "t \<le> of_int N"
  then have f: "\<lfloor>t\<rfloor> \<le> N" by (simp add: floor_le_iff) 
  show ?thesis
  proof (cases "\<lfloor>t\<rfloor> = N")
    case True
    then have "of_int N \<le> t" by (metis of_int_floor_le)
    with t have "t = of_int N" by simp
    then show ?thesis by (simp add: roundEven_def)
  next
    case False
    with f have "\<lfloor>t\<rfloor> + 1 \<le> N" by simp
    then show ?thesis using f by (auto simp: roundEven_def Let_def)
  qed
qed

lemma roundEven_ge: "of_int N \<le> t \<Longrightarrow> N \<le> roundEven t"
proof -
  assume "of_int N \<le> t"
  then have "N \<le> \<lfloor>t\<rfloor>" by (simp add: le_floor_iff)
  then show ?thesis by (auto simp: roundEven_def Let_def)
qed

lemma roundEven_small: "0 \<le> t \<Longrightarrow> t < 1 / 2 \<Longrightarrow> roundEven t = 0"
proof -
  assume a: "0 \<le> t" "t < 1 / 2"
  then have "\<lfloor>t\<rfloor> = 0" by (simp add: floor_eq_iff)
  with a show ?thesis by (simp add: roundEven_def)
qed

lemma exponent_nonpos:
  assumes "0 < z" "z \<le> 1"
  shows "max \<lfloor>log 2 \<bar>z\<bar>\<rfloor> (- 1022) \<le> 0"
proof -
  have "log 2 z \<le> 0" using assms by simp
  then have "\<lfloor>log 2 z\<rfloor> \<le> 0" by (simp add: floor_le_iff)
  with assms show ?thesis by simp
qed

lemma round_double_le_one:
  assumes "0 < z" "z \<le> 1"
  shows "round_double z \<le> 1"
proof -
  define e where "e = max \<lfloor>log 2 \<bar>z\<bar>\<rfloor> (- 1022)"
  define q :: real where "q = 2 powr (of_int e - 52)"
  have e: "e \<le> 0" unfolding e_def using assms by (rule exponent_nonpos)
  have q: "0 < q" by (simp add: q_def)
  define N :: int where "N = 2 ^ nat (52 - e)"
  have "of_int N = (2::real) ^ nat (52 - e)" by (simp add: N_def)
  also have "\<dots> = 2 powr real (nat (52 - e))" by (simp add: powr_realpow)
  also have "real (nat (52 - e)) = 52 - of_int e" using e by simp
  finally have N: "real_of_int N = 2 powr (52 - of_int e)" .
  have qN: "q * of_int N = 1"
    unfolding N q_def by (simp add: powr_add [symmetric])
  have "z / q \<le> 1 / q" using assms q by (simp add: divide_right_mono)
  also have "1 / q = of_int N" using qN q by (simp add: field_simps)
  finally have "roundEven (z / q) \<le> N" by (rule roundEven_le)
  then have "q * of_int (roundEven (z / q)) \<le> q * of_int N"
    using q by simp
  then have "q * of_int (roundEven (z / q)) \<le> 1" by (simp only: qN)
  then show ?thesis
    using assms by (simp add: round_double_def Let_def e_def q_def)
qed

lemma round_double_ge_grid:
  assumes "2 powr (- 1022) \<le> z"
  shows "2 powr of_int \<lfloor>log 2 z\<rfloor> \<le> round_double z"
proof -
  have zpos: "0 < z" using assms by (rule less_le_trans [rotated]) simp
  define L where "L = \<lfloor>log 2 z\<rfloor>"
  have "- 1022 \<le> log 2 z" using assms zpos by (simp add: le_log_iff)
  then have L: "- 1022 \<le> L" by (simp add: L_def le_floor_iff)
  define q :: real where "q = 2 powr (of_int L - 52)"
  have q: "0 < q" by (simp add: q_def)
  have "of_int L \<le> log 2 z" by (simp add: L_def)
  then have zL: "2 powr of_int L \<le> z" using zpos by (simp add: powr_le_iff)
  have "of_int ((2::int) ^ 52) = (2::real) powr 52" by simp
  also have "\<dots> = 2 powr of_int L / q" by (simp add: q_def powr_diff)
  also have "\<dots> \<le> z / q" using zL q by (simp add: divide_right_mono)
  finally have "2 ^ 52 \<le> roundEven (z / q)" by (rule roundEven_ge)
  then have "q * of_int ((2::int) ^ 52) \<le> q * of_int (roundEven (z / q))"
    using q by (simp del: of_int_power of_int_numeral)
  moreover have "q * of_int ((2::int) ^ 52) = 2 powr of_int L"
    by (simp add: q_def powr_diff)
  ultimately have "2 powr of_int L \<le> q * of_int (roundEven (z / q))" by simp
  moreover have "max \<lfloor>log 2 \<bar>z\<bar>\<rfloor> (- 1022) = L" using L zpos by (simp add: L_def)
  ultimately show ?thesis
    using zpos by (simp add: round_double_def Let_def q_def L_def [symmetric])
qed

lemma round_double_pos: "2 powr (- 1022) \<le> z \<Longrightarrow> 0 < round_double z"
  by (rule less_le_trans [OF _ round_double_ge_grid]) simp_all

lemma round_double_ge_one:
  assumes "1 \<le> z"
  shows "1 \<le> round_double z"
proof -
  have "(2::real) powr (- 1022) \<le> 2 powr 0" by (rule powr_mono) simp_all
  with assms have z: "2 powr (- 1022) \<le> z" by simp
  have "0 \<le> log 2 z" using assms by simp
  then have "0 \<le> \<lfloor>log 2 z\<rfloor>" by simp
  then have "(2::real) powr 0 \<le> 2 powr of_int \<lfloor>log 2 z\<rfloor>"
    by (intro powr_mono) simp_all
  then have "(1::real) \<le> 2 powr of_int \<lfloor>log 2 z\<rfloor>" by simp
  also have "\<dots> \<le> round_double z" using z by (rule round_double_ge_grid)
  finally show ?thesis .
qed

lemma round_double_underflow:
  assumes "0 < z" "z < 2 powr (- 1075)"
  shows "round_double z = 0"
proof -
  have "2 powr (- 1075) < (2::real) powr (- 1022)" by (rule powr_less_mono) simp_all
  with assms have "z < 2 powr (- 1022)" by linarith
  then have "log 2 z < - 1022" using assms by (simp add: log_less_iff)
  then have "\<lfloor>log 2 z\<rfloor> < - 1022" by (simp add: floor_less_iff)
  then have e: "max \<lfloor>log 2 \<bar>z\<bar>\<rfloor> (- 1022) = - 1022" using assms by simp
  have "z / 2 powr (- 1074) < 2 powr (- 1075) / 2 powr (- 1074)"
    using assms by (simp add: divide_strict_right_mono)
  also have "\<dots> = 1 / 2" by (simp add: powr_diff [symmetric] powr_minus)
  finally have "roundEven (z / 2 powr (- 1074)) = 0"
    using assms by (intro roundEven_small) simp_all
  then show ?thesis
    using assms e by (simp add: round_double_def Let_def)
qed

lemma double_div_underflow: "double_div denorm_min 3.6 = 0"
proof -
  have "denorm_min / 3.6 < denorm_min / 2"
    unfolding denorm_min_def by (simp add: field_simps)
  also have "denorm_min / 2 = 2 powr (- 1075)"
    unfolding denorm_min_def by (simp add: powr_diff [symmetric] powr_minus)
  finally have "denorm_min / 3.6 < 2 powr (- 1075)" .
  moreover have "0 < denorm_min / 3.6" by (simp add: denorm_min_def)
  ultimately show ?thesis
    unfolding double_div_def by (rule round_double_underflow [rotated])
qed

lemma double_div_le_one: "0 < x \<Longrightarrow> x \<le> 3.6 \<Longrightarrow> double_div x 3.6 \<le> 1"
  unfolding double_div_def by (rule round_double_le_one) simp_all

lemma double_div_ge_one: "3.6 < x \<Longrightarrow> 1 \<le> double_div x 3.6"
  unfolding double_div_def by (rule round_double_ge_one) simp

lemma double_div_two: "0 < double_div 2 3.6"
  unfolding double_div_def
proof (rule round_double_pos)
  have "(2::real) powr (- 1022) \<le> 2 powr (- 1)" by (rule powr_mono) simp_all
  also have "\<dots> \<le> 2 / 3.6" by (simp add: powr_minus)
  finally show "2 powr (- 1022) \<le> (2::real) / 3.6" .
qed


text \<open>
  C5, as the claim states it, fails at the smallest positive double: it lies in
  \<open>(0, 3.6]\<close>, its quotient by 3.6 rounds to zero, the guard of line 57 returns, and a
  canal just reset stays closed with rate 0 instead of being opened with rate
  \<open>amount / 3.6\<close>.
\<close>

theorem scheduleTransfer_underflow:
  "0 < denorm_min \<and> denorm_min \<le> 3.6
   \<and> double_div denorm_min 3.6 = 0
   \<and> scheduleTransfer double_div (Some 0) denorm_min (closeAllCanals [0, 1, 2, 3] acequia)
       = closeAllCanals [0, 1, 2, 3] acequia
   \<and> \<not> isOpen (canalHeap
         (scheduleTransfer double_div (Some 0) denorm_min (closeAllCanals [0, 1, 2, 3] acequia)) 0)
   \<and> flowRate (canalHeap
         (scheduleTransfer double_div (Some 0) denorm_min (closeAllCanals [0, 1, 2, 3] acequia)) 0)
       \<noteq> denorm_min / 3.6"
proof -
  have pos: "0 < denorm_min" by (simp add: denorm_min_def)
  have "denorm_min \<le> 2 powr 0"
    unfolding denorm_min_def by (rule powr_mono) simp_all
  then have le: "denorm_min \<le> 3.6" by simp
  have same: "scheduleTransfer double_div (Some 0) denorm_min (closeAllCanals [0, 1, 2, 3] acequia)
       = closeAllCanals [0, 1, 2, 3] acequia"
    unfolding scheduleTransfer_eq double_div_underflow by simp
  have closed: "\<not> isOpen (canalHeap (closeAllCanals [0, 1, 2, 3] acequia) 0)"
    and rate: "flowRate (canalHeap (closeAllCanals [0, 1, 2, 3] acequia) 0) = 0"
    unfolding closeAllCanals_eq by simp_all
  have "flowRate (canalHeap (closeAllCanals [0, 1, 2, 3] acequia) 0) \<noteq> denorm_min / 3.6"
    unfolding rate using pos by simp
  with pos le same closed show ?thesis
    unfolding same using double_div_underflow by blast
qed

text \<open>
  C5, amended. Let the division map the amounts of \<open>(0, 3.6]\<close> to quotients of at most 1
  and the amounts above 3.6 to quotients of at least 1, as the division of doubles does.
  For a canal \<open>c\<close>: an amount in \<open>(0, 3.6]\<close> whose quotient by 3.6 is positive sets the
  rate of \<open>c\<close> to that quotient, which is at most 1, and opens it; an amount above 3.6
  sets the rate to 1 and opens it; an amount of at most 0, or one whose quotient is not
  positive, leaves the manager as it is, so that a canal just reset stays closed with
  rate 0. Nothing but the rate and the gate of \<open>c\<close> changes.
\<close>

theorem scheduleTransfer_spec:
  assumes le: "\<And>x. 0 < x \<Longrightarrow> x \<le> 3.6 \<Longrightarrow> fdiv x 3.6 \<le> 1"
    and ge: "\<And>x. 3.6 < x \<Longrightarrow> 1 \<le> fdiv x 3.6"
  shows "(0 < amount \<and> amount \<le> 3.6 \<and> 0 < fdiv amount 3.6 \<longrightarrow>
      fdiv amount 3.6 \<le> 1 \<and>
      scheduleTransfer fdiv (Some c) amount m =
        m\<lparr>canalHeap := (canalHeap m)
             (c := (canalHeap m c)\<lparr>flowRate := fdiv amount 3.6, isOpen := True\<rparr>)\<rparr>)
   \<and> (3.6 < amount \<longrightarrow>
      scheduleTransfer fdiv (Some c) amount m =
        m\<lparr>canalHeap := (canalHeap m)
             (c := (canalHeap m c)\<lparr>flowRate := 1, isOpen := True\<rparr>)\<rparr>)
   \<and> (amount \<le> 0 \<or> fdiv amount 3.6 \<le> 0 \<longrightarrow>
      scheduleTransfer fdiv (Some c) amount m = m
      \<and> (c \<in> set cs \<longrightarrow>
           flowRate (canalHeap (scheduleTransfer fdiv (Some c) amount (closeAllCanals cs m)) c) = 0
           \<and> \<not> isOpen (canalHeap (scheduleTransfer fdiv (Some c) amount (closeAllCanals cs m)) c)))"
proof (intro conjI impI)
  assume a: "0 < amount \<and> amount \<le> 3.6 \<and> 0 < fdiv amount 3.6"
  then show q: "fdiv amount 3.6 \<le> 1" using le by blast
  then have "min (fdiv amount 3.6) 1 = fdiv amount 3.6" by simp
  with a show "scheduleTransfer fdiv (Some c) amount m =
        m\<lparr>canalHeap := (canalHeap m)
             (c := (canalHeap m c)\<lparr>flowRate := fdiv amount 3.6, isOpen := True\<rparr>)\<rparr>"
    by (simp add: scheduleTransfer_eq)
next
  assume a: "3.6 < amount"
  then have q: "1 \<le> fdiv amount 3.6" by (rule ge)
  then have "min (fdiv amount 3.6) 1 = 1" by simp
  moreover from a have "\<not> amount \<le> 0" by simp
  moreover from q have "\<not> fdiv amount 3.6 \<le> 0" by simp
  ultimately show "scheduleTransfer fdiv (Some c) amount m =
        m\<lparr>canalHeap := (canalHeap m)
             (c := (canalHeap m c)\<lparr>flowRate := 1, isOpen := True\<rparr>)\<rparr>"
    by (simp add: scheduleTransfer_eq)
next
  assume a: "amount \<le> 0 \<or> fdiv amount 3.6 \<le> 0"
  then show "scheduleTransfer fdiv (Some c) amount m = m"
    by (simp add: scheduleTransfer_eq)
  assume "c \<in> set cs"
  with a show "flowRate (canalHeap (scheduleTransfer fdiv (Some c) amount (closeAllCanals cs m)) c) = 0"
    by (simp add: scheduleTransfer_eq closeAllCanals_eq)
  from a \<open>c \<in> set cs\<close>
  show "\<not> isOpen (canalHeap (scheduleTransfer fdiv (Some c) amount (closeAllCanals cs m)) c)"
    by (simp add: scheduleTransfer_eq closeAllCanals_eq)
qed

theorem scheduleTransfer_spec_witness:
  "0 < double_div 2 3.6 \<and> double_div 2 3.6 \<le> 1
   \<and> flowRate (canalHeap (scheduleTransfer double_div (Some 1) 2 acequia) 1) = double_div 2 3.6
   \<and> flowRate (canalHeap
         (scheduleTransfer double_div (Some 1) 72 (closeAllCanals [0, 1] acequia)) 1) = 1
   \<and> isOpen (canalHeap
         (scheduleTransfer double_div (Some 1) 72 (closeAllCanals [0, 1] acequia)) 1)
   \<and> \<not> isOpen (canalHeap
         (scheduleTransfer double_div (Some 1) (- 2) (closeAllCanals [0, 1] acequia)) 1)
   \<and> double_div denorm_min 3.6 \<le> 0
   \<and> \<not> isOpen (canalHeap
         (scheduleTransfer double_div (Some 1) denorm_min (closeAllCanals [0, 1] acequia)) 1)"
proof -
  note spec = scheduleTransfer_spec [of double_div, OF double_div_le_one double_div_ge_one]
  have two: "0 < double_div 2 3.6" by (rule double_div_two)
  have tiny: "double_div denorm_min 3.6 \<le> 0" unfolding double_div_underflow by simp
  show ?thesis
    using two tiny
      spec [of 2 1 acequia "[0, 1]"]
      spec [of 72 1 "closeAllCanals [0, 1] acequia" "[0, 1]"]
      spec [of "- 2" 1 acequia "[0, 1]"]
      spec [of denorm_min 1 acequia "[0, 1]"]
    by simp
qed

section \<open>The pairwise transfer evaluator\<close>

lemma amount_pos:
  fixes a b r :: real
  assumes "\<not> a \<le> 0" "\<not> b \<le> 0" "\<not> r \<le> 0"
  shows "\<not> min a (min b (r * 0.8)) \<le> 0"
  using assms by simp

lemma transfer_chain:
  fixes a b r :: real
  shows "(if a \<le> 0 \<or> b \<le> 0 then m
          else if r \<le> 0 then m
          else if min a (min b (r * 0.8)) \<le> 0 then m
          else f (min a (min b (r * 0.8))))
       = (if a \<le> 0 \<or> b \<le> 0 \<or> r \<le> 0 then m else f (min a (min b (r * 0.8))))"
proof (cases "a \<le> 0 \<or> b \<le> 0 \<or> r \<le> 0")
  case True
  then show ?thesis by auto
next
  case False
  then have "\<not> min a (min b (r * 0.8)) \<le> 0"
    using amount_pos [of a b r] by blast
  with False show ?thesis by auto
qed

lemma tryTransfer_eq:
  "tryTransfer fdiv (Some s) (Some d) (Some c) m =
     (if computeDeficit (Some (regionHeap m d)) \<le> 0
         \<or> computeSafeSurplus (Some (regionHeap m s)) \<le> 0
         \<or> waterCapacity (regionHeap m d) - waterLevel (regionHeap m d) \<le> 0
      then m
      else scheduleTransfer fdiv (Some c)
             (min (computeDeficit (Some (regionHeap m d)))
                (min (computeSafeSurplus (Some (regionHeap m s)))
                   ((waterCapacity (regionHeap m d) - waterLevel (regionHeap m d)) * 0.8)))
             m)"
  unfolding tryTransfer_def Let_def option.case by (rule transfer_chain)

lemma scheduled_state:
  "scheduleTransfer fdiv (Some c) amount m = m
   \<or> (isOpen (canalHeap (scheduleTransfer fdiv (Some c) amount m) c)
      \<and> 0 < flowRate (canalHeap (scheduleTransfer fdiv (Some c) amount m) c)
      \<and> flowRate (canalHeap (scheduleTransfer fdiv (Some c) amount m) c) \<le> 1)"
  by (simp add: scheduleTransfer_eq)

lemma tryTransfer_null:
  "tryTransfer fdiv None dst canal m = m"
  "tryTransfer fdiv src None canal m = m"
  "tryTransfer fdiv src dst None m = m"
  by (simp_all add: tryTransfer_def split: option.splits)

text \<open>
  C2. For a source \<open>s\<close>, a destination \<open>d\<close> and a canal \<open>c\<close>, whatever the division
  rounds to: when the level of \<open>d\<close> is at or above its capacity, or the deficit of \<open>d\<close> or
  the safe surplus of \<open>s\<close> is zero or negative, the transfer evaluator leaves the manager
  as it is. Otherwise all it does is hand to \<open>scheduleTransfer\<close>, for the canal \<open>c\<close>, the
  least of the deficit, the surplus and the room left in \<open>d\<close> times 0.8: a positive amount
  that exceeds none of the three. In either case the canal \<open>c\<close> is left as it was or is
  open with a rate in \<open>(0, 1]\<close>.
\<close>

theorem tryTransfer_bounds:
  fixes fdiv :: "real \<Rightarrow> real \<Rightarrow> real" and m :: Manager and s d c :: ptr
  defines "need \<equiv> computeDeficit (Some (regionHeap m d))"
    and "surplus \<equiv> computeSafeSurplus (Some (regionHeap m s))"
    and "room \<equiv> waterCapacity (regionHeap m d) - waterLevel (regionHeap m d)"
    and "m' \<equiv> tryTransfer fdiv (Some s) (Some d) (Some c) m"
  shows "(waterLevel (regionHeap m d) \<ge> waterCapacity (regionHeap m d)
            \<or> need \<le> 0 \<or> surplus \<le> 0 \<longrightarrow> m' = m)
       \<and> (\<not> (waterLevel (regionHeap m d) \<ge> waterCapacity (regionHeap m d)
               \<or> need \<le> 0 \<or> surplus \<le> 0) \<longrightarrow>
            m' = scheduleTransfer fdiv (Some c) (min need (min surplus (room * 0.8))) m)
       \<and> (m' = m
          \<or> (\<exists>amount. m' = scheduleTransfer fdiv (Some c) amount m
                \<and> 0 < amount \<and> amount \<le> need \<and> amount \<le> surplus \<and> amount \<le> 0.8 * room))
       \<and> (m' = m
          \<or> (isOpen (canalHeap m' c)
              \<and> 0 < flowRate (canalHeap m' c) \<and> flowRate (canalHeap m' c) \<le> 1))"
proof (cases "need \<le> 0 \<or> surplus \<le> 0 \<or> room \<le> 0")
  case True
  then have "m' = m"
    unfolding m'_def tryTransfer_eq need_def surplus_def room_def by simp
  moreover from True have "waterLevel (regionHeap m d) \<ge> waterCapacity (regionHeap m d)
            \<or> need \<le> 0 \<or> surplus \<le> 0"
    unfolding room_def by auto
  ultimately show ?thesis by simp
next
  case False
  let ?a = "min need (min surplus (room * 0.8))"
  from False have eq: "m' = scheduleTransfer fdiv (Some c) ?a m"
    unfolding m'_def tryTransfer_eq need_def surplus_def room_def by simp
  from False have pos: "0 < ?a"
    using amount_pos [of need surplus room] by simp
  have "?a \<le> room * 0.8"
    by (rule min.coboundedI2) (rule min.cobounded2)
  then have bounds: "?a \<le> need \<and> ?a \<le> surplus \<and> ?a \<le> 0.8 * room"
    by (simp only: mult.commute [of room] min.cobounded1 min.coboundedI2 simp_thms)
  have state: "m' = m
          \<or> (isOpen (canalHeap m' c)
              \<and> 0 < flowRate (canalHeap m' c) \<and> flowRate (canalHeap m' c) \<le> 1)"
    unfolding eq by (rule scheduled_state)
  from eq pos bounds have "\<exists>amount. m' = scheduleTransfer fdiv (Some c) amount m
                \<and> 0 < amount \<and> amount \<le> need \<and> amount \<le> surplus \<and> amount \<le> 0.8 * room"
    by blast
  moreover from False have "\<not> (waterLevel (regionHeap m d) \<ge> waterCapacity (regionHeap m d)
            \<or> need \<le> 0 \<or> surplus \<le> 0)"
    unfolding room_def by simp
  ultimately show ?thesis using eq state by blast
qed

theorem tryTransfer_bounds_witness:
  "computeDeficit (Some (regionHeap acequia 2)) \<le> 0
   \<and> tryTransfer double_div (Some 0) (Some 2) (Some 2) acequia = acequia
   \<and> \<not> (waterLevel (regionHeap acequia 1) \<ge> waterCapacity (regionHeap acequia 1)
         \<or> computeDeficit (Some (regionHeap acequia 1)) \<le> 0
         \<or> computeSafeSurplus (Some (regionHeap acequia 0)) \<le> 0)
   \<and> tryTransfer double_div (Some 0) (Some 1) (Some 0) acequia
       = scheduleTransfer double_div (Some 0) 40 acequia
   \<and> isOpen (canalHeap (tryTransfer double_div (Some 0) (Some 1) (Some 0) acequia) 0)
   \<and> flowRate (canalHeap (tryTransfer double_div (Some 0) (Some 1) (Some 0) acequia) 0) = 1"
proof -
  have r: "regionHeap acequia 0 = northR" "regionHeap acequia 1 = southR"
    "regionHeap acequia 2 = eastR"
    by (simp_all add: acequia_def regionStore_def)
  have v: "computeDeficit (Some eastR) = 0" "computeDeficit (Some southR) = 70"
    "computeSafeSurplus (Some northR) = 40"
    "waterCapacity southR - waterLevel southR = 90"
    by (simp_all add: computeDeficit_Some computeSafeSurplus_Some northR_def southR_def eastR_def)
  have room: "\<not> waterCapacity southR \<le> waterLevel southR"
    by (simp add: southR_def)
  have skip: "tryTransfer double_div (Some 0) (Some 2) (Some 2) acequia = acequia"
    using tryTransfer_bounds [where m = acequia and s = 0 and d = 2 and c = 2 and fdiv = double_div]
    unfolding r v by simp
  have go: "tryTransfer double_div (Some 0) (Some 1) (Some 0) acequia
       = scheduleTransfer double_div (Some 0) 40 acequia"
    using tryTransfer_bounds [where m = acequia and s = 0 and d = 1 and c = 0 and fdiv = double_div]
      room
    unfolding r v by simp
  have q: "1 \<le> double_div 40 3.6" by (rule double_div_ge_one) simp
  then have q': "\<not> double_div 40 3.6 \<le> 0" "min (double_div 40 3.6) 1 = 1" by simp_all
  have "isOpen (canalHeap (scheduleTransfer double_div (Some 0) 40 acequia) 0)"
    "flowRate (canalHeap (scheduleTransfer double_div (Some 0) 40 acequia) 0) = 1"
    unfolding scheduleTransfer_eq using q' by simp_all
  with skip go room show ?thesis
    unfolding r v by simp
qed

section \<open>What an hourly pass changes\<close>

lemma scheduleTransfer_frame:
  "scheduleTransfer fdiv canal amount m = m\<lparr>canalHeap := canalHeap (scheduleTransfer fdiv canal amount m)\<rparr>"
  by (cases canal) (simp_all add: scheduleTransfer_eq, simp add: scheduleTransfer_def)

lemma scheduleTransfer_name:
  "canalName (canalHeap (scheduleTransfer fdiv canal amount m) p) = canalName (canalHeap m p)"
  by (cases canal) (simp_all add: scheduleTransfer_eq, simp add: scheduleTransfer_def)

lemma skip_or_schedule:
  "(if P then m else f a) = m \<or> (\<exists>x. (if P then m else f a) = f x)"
  by auto

lemma tryTransfer_cases:
  "tryTransfer fdiv src dst canal m = m
   \<or> (\<exists>amount. tryTransfer fdiv src dst canal m = scheduleTransfer fdiv canal amount m)"
proof (cases src)
  case None then show ?thesis by (simp add: tryTransfer_null)
next
  case s: (Some s)
  show ?thesis
  proof (cases dst)
    case None then show ?thesis by (simp add: tryTransfer_null)
  next
    case d: (Some d)
    show ?thesis
    proof (cases canal)
      case None then show ?thesis by (simp add: tryTransfer_null)
    next
      case c: (Some c)
      show ?thesis unfolding s d c tryTransfer_eq by (rule skip_or_schedule)
    qed
  qed
qed

lemma tryTransfer_frame:
  "tryTransfer fdiv src dst canal m = m\<lparr>canalHeap := canalHeap (tryTransfer fdiv src dst canal m)\<rparr>"
  using tryTransfer_cases [of fdiv src dst canal m] scheduleTransfer_frame [of fdiv canal _ m]
  by (elim disjE exE) simp_all

lemma tryTransfer_name:
  "canalName (canalHeap (tryTransfer fdiv src dst canal m) p) = canalName (canalHeap m p)"
  using tryTransfer_cases [of fdiv src dst canal m] scheduleTransfer_name [of fdiv canal _ m p]
  by (elim disjE exE) simp_all


lemma frame_intro:
  "m' = m\<lparr>canalHeap := h\<rparr> \<Longrightarrow> m' = m\<lparr>canalHeap := canalHeap m'\<rparr>"
  by simp

lemma closeAllCanals_frame:
  "closeAllCanals cs m = m\<lparr>canalHeap := canalHeap (closeAllCanals cs m)\<rparr>"
  by (rule frame_intro) (rule closeAllCanals_eq)

lemma closeAllCanals_name:
  "canalName (canalHeap (closeAllCanals cs m) p) = canalName (canalHeap m p)"
  by (simp add: closeAllCanals_eq)

lemma frame_regionHeap:
  "m' = m\<lparr>canalHeap := h\<rparr> \<Longrightarrow> regionHeap m' = regionHeap m"
  by simp

lemma tryTransfer_regionHeap:
  "regionHeap (tryTransfer fdiv src dst canal m) = regionHeap m"
  by (rule frame_regionHeap) (rule tryTransfer_frame)

lemma closeAllCanals_regionHeap:
  "regionHeap (closeAllCanals cs m) = regionHeap m"
  by (rule frame_regionHeap) (rule closeAllCanals_frame)

lemma frame_trans:
  "m1 = m\<lparr>canalHeap := canalHeap m1\<rparr> \<Longrightarrow> m2 = m1\<lparr>canalHeap := canalHeap m2\<rparr>
   \<Longrightarrow> m2 = m\<lparr>canalHeap := canalHeap m2\<rparr>"
proof -
  assume a: "m1 = m\<lparr>canalHeap := canalHeap m1\<rparr>" and b: "m2 = m1\<lparr>canalHeap := canalHeap m2\<rparr>"
  have "m2 = (m\<lparr>canalHeap := canalHeap m1\<rparr>)\<lparr>canalHeap := canalHeap m2\<rparr>"
    using a b by simp
  then show ?thesis by simp
qed

lemma tryTransfer_after:
  "m1 = m\<lparr>canalHeap := canalHeap m1\<rparr> \<Longrightarrow>
   tryTransfer fdiv src dst canal m1 = m\<lparr>canalHeap := canalHeap (tryTransfer fdiv src dst canal m1)\<rparr>"
  by (erule frame_trans) (rule tryTransfer_frame)

lemma hourPass_frame:
  "hourPass fdiv t cs m = m\<lparr>canalHeap := canalHeap (hourPass fdiv t cs m)\<rparr>"
  unfolding hourPass_def Let_def
  by (intro tryTransfer_after closeAllCanals_frame)

lemma hourPass_name:
  "canalName (canalHeap (hourPass fdiv t cs m) p) = canalName (canalHeap m p)"
  unfolding hourPass_def Let_def
  by (simp only: tryTransfer_name closeAllCanals_name)

lemma tryTransfer_same_decision:
  assumes "regionHeap m' = regionHeap m"
  shows "(tryTransfer fdiv src dst canal m' = m' \<and> tryTransfer fdiv src dst canal m = m)
       \<or> (\<exists>amount. 0 < amount
             \<and> tryTransfer fdiv src dst canal m' = scheduleTransfer fdiv canal amount m'
             \<and> tryTransfer fdiv src dst canal m = scheduleTransfer fdiv canal amount m)"
proof (cases src)
  case None then show ?thesis by (simp add: tryTransfer_null)
next
  case s: (Some s)
  show ?thesis
  proof (cases dst)
    case None then show ?thesis by (simp add: tryTransfer_null)
  next
    case d: (Some d)
    show ?thesis
    proof (cases canal)
      case None then show ?thesis by (simp add: tryTransfer_null)
    next
      case c: (Some c)
      let ?need = "computeDeficit (Some (regionHeap m d))"
      let ?surplus = "computeSafeSurplus (Some (regionHeap m s))"
      let ?room = "waterCapacity (regionHeap m d) - waterLevel (regionHeap m d)"
      show ?thesis
      proof (cases "?need \<le> 0 \<or> ?surplus \<le> 0 \<or> ?room \<le> 0")
        case True
        then show ?thesis
          unfolding s d c tryTransfer_eq assms by simp
      next
        case False
        then have "0 < min ?need (min ?surplus (?room * 0.8))"
          using amount_pos [of ?need ?surplus ?room] by simp
        moreover from False
        have "tryTransfer fdiv src dst canal m' =
                scheduleTransfer fdiv canal (min ?need (min ?surplus (?room * 0.8))) m'"
          unfolding s d c tryTransfer_eq assms by simp
        moreover from False
        have "tryTransfer fdiv src dst canal m =
                scheduleTransfer fdiv canal (min ?need (min ?surplus (?room * 0.8))) m"
          unfolding s d c tryTransfer_eq by simp
        ultimately show ?thesis by blast
      qed
    qed
  qed
qed

text \<open>
  C7. A transfer attempt and a whole hourly pass change nothing of the manager but the
  canal store, and in the canal store no name: every region field, the two collections,
  the hour and the solved flag are as before. So the region store that each of the four
  attempts of a pass reads is the one of the start of the hour, and an attempt made on any
  manager with that region store decides as it would on the manager of the start of the
  hour: both skip, or both schedule the same amount.
\<close>

theorem hourPass_reads_start_state:
  "tryTransfer fdiv src dst canal m = m\<lparr>canalHeap := canalHeap (tryTransfer fdiv src dst canal m)\<rparr>
   \<and> canalName (canalHeap (tryTransfer fdiv src dst canal m) p) = canalName (canalHeap m p)
   \<and> hourPass fdiv t cs m = m\<lparr>canalHeap := canalHeap (hourPass fdiv t cs m)\<rparr>
   \<and> canalName (canalHeap (hourPass fdiv t cs m) p) = canalName (canalHeap m p)
   \<and> (let m0 = closeAllCanals cs m;
           m1 = tryTransfer fdiv (north t) (south t) (canalA t) m0;
           m2 = tryTransfer fdiv (north t) (east t) (canalC t) m1;
           m3 = tryTransfer fdiv (south t) (east t) (canalB t) m2
       in regionHeap m0 = regionHeap m \<and> regionHeap m1 = regionHeap m
          \<and> regionHeap m2 = regionHeap m \<and> regionHeap m3 = regionHeap m
          \<and> hourPass fdiv t cs m = tryTransfer fdiv (east t) (north t) (canalD t) m3)
   \<and> (\<forall>m'. regionHeap m' = regionHeap m \<longrightarrow>
         (tryTransfer fdiv src dst canal m' = m' \<and> tryTransfer fdiv src dst canal m = m)
         \<or> (\<exists>amount. 0 < amount
               \<and> tryTransfer fdiv src dst canal m' = scheduleTransfer fdiv canal amount m'
               \<and> tryTransfer fdiv src dst canal m = scheduleTransfer fdiv canal amount m))"
proof (intro conjI)
  show "tryTransfer fdiv src dst canal m = m\<lparr>canalHeap := canalHeap (tryTransfer fdiv src dst canal m)\<rparr>"
    by (rule tryTransfer_frame)
  show "canalName (canalHeap (tryTransfer fdiv src dst canal m) p) = canalName (canalHeap m p)"
    by (rule tryTransfer_name)
  show "hourPass fdiv t cs m = m\<lparr>canalHeap := canalHeap (hourPass fdiv t cs m)\<rparr>"
    by (rule hourPass_frame)
  show "canalName (canalHeap (hourPass fdiv t cs m) p) = canalName (canalHeap m p)"
    by (rule hourPass_name)
  show "let m0 = closeAllCanals cs m;
           m1 = tryTransfer fdiv (north t) (south t) (canalA t) m0;
           m2 = tryTransfer fdiv (north t) (east t) (canalC t) m1;
           m3 = tryTransfer fdiv (south t) (east t) (canalB t) m2
       in regionHeap m0 = regionHeap m \<and> regionHeap m1 = regionHeap m
          \<and> regionHeap m2 = regionHeap m \<and> regionHeap m3 = regionHeap m
          \<and> hourPass fdiv t cs m = tryTransfer fdiv (east t) (north t) (canalD t) m3"
    unfolding Let_def
    by (simp only: tryTransfer_regionHeap closeAllCanals_regionHeap hourPass_def Let_def simp_thms)
  show "\<forall>m'. regionHeap m' = regionHeap m \<longrightarrow>
         (tryTransfer fdiv src dst canal m' = m' \<and> tryTransfer fdiv src dst canal m = m)
         \<or> (\<exists>amount. 0 < amount
               \<and> tryTransfer fdiv src dst canal m' = scheduleTransfer fdiv canal amount m'
               \<and> tryTransfer fdiv src dst canal m = scheduleTransfer fdiv canal amount m)"
    using tryTransfer_same_decision by blast
qed

theorem hourPass_reads_start_state_witness:
  "regionHeap (closeAllCanals [0, 1, 2, 3] acequia) = regionHeap acequia
   \<and> ((tryTransfer double_div (Some 0) (Some 1) (Some 0) (closeAllCanals [0, 1, 2, 3] acequia)
          = closeAllCanals [0, 1, 2, 3] acequia
        \<and> tryTransfer double_div (Some 0) (Some 1) (Some 0) acequia = acequia)
       \<or> (\<exists>amount. 0 < amount
             \<and> tryTransfer double_div (Some 0) (Some 1) (Some 0) (closeAllCanals [0, 1, 2, 3] acequia)
                 = scheduleTransfer double_div (Some 0) amount (closeAllCanals [0, 1, 2, 3] acequia)
             \<and> tryTransfer double_div (Some 0) (Some 1) (Some 0) acequia
                 = scheduleTransfer double_div (Some 0) amount acequia))"
proof -
  have h: "regionHeap (closeAllCanals [0, 1, 2, 3] acequia) = regionHeap acequia"
    by (simp add: closeAllCanals_eq)
  show ?thesis
    using h hourPass_reads_start_state
      [where m = acequia and src = "Some 0" and dst = "Some 1" and canal = "Some 0"
        and fdiv = double_div]
    by blast
qed


section \<open>The surplus of one region across two canals\<close>

lemma thirsty_surplus: "computeSafeSurplus (Some (thirstyStore 0)) = 2"
  by (simp add: computeSafeSurplus_Some thirstyStore_def)

lemma thirsty_deficit:
  "computeDeficit (Some (thirstyStore 1)) = 70" "computeDeficit (Some (thirstyStore 2)) = 40"
  "computeDeficit (Some (thirstyStore 0)) = 0"
  "computeSafeSurplus (Some (thirstyStore 1)) = 0" "computeSafeSurplus (Some (thirstyStore 2)) = 0"
  by (simp_all add: computeDeficit_Some computeSafeSurplus_Some thirstyStore_def)


lemma scheduleTransfer_regionHeap:
  "regionHeap (scheduleTransfer fdiv canal amount m) = regionHeap m"
  by (rule frame_regionHeap) (rule scheduleTransfer_frame)

lemma thirsty_pass_any:
  assumes rh: "regionHeap m = thirstyStore"
  shows "hourPass fdiv \<lparr>north = Some 0, south = Some 1, east = Some 2,
                   canalA = Some a, canalB = b, canalC = Some c, canalD = d\<rparr> cs m =
           scheduleTransfer fdiv (Some c) 2 (scheduleTransfer fdiv (Some a) 2 (closeAllCanals cs m))"
proof -
  define m0 where "m0 = closeAllCanals cs m"
  define m1 where "m1 = scheduleTransfer fdiv (Some a) 2 m0"
  define m2 where "m2 = scheduleTransfer fdiv (Some c) 2 m1"
  have r0: "regionHeap m0 = thirstyStore"
    unfolding m0_def closeAllCanals_regionHeap by (rule rh)
  have r1: "regionHeap m1 = thirstyStore"
    unfolding m1_def scheduleTransfer_regionHeap by (rule r0)
  have r2: "regionHeap m2 = thirstyStore"
    unfolding m2_def scheduleTransfer_regionHeap by (rule r1)
  have room: "waterCapacity (thirstyStore 1) - waterLevel (thirstyStore 1) = 90"
     "waterCapacity (thirstyStore 2) - waterLevel (thirstyStore 2) = 90"
    by (simp_all add: thirstyStore_def)
  have t1: "tryTransfer fdiv (Some 0) (Some 1) (Some a) m0 = m1"
    unfolding tryTransfer_eq r0 thirsty_surplus thirsty_deficit room m1_def by simp
  have t2: "tryTransfer fdiv (Some 0) (Some 2) (Some c) m1 = m2"
    unfolding tryTransfer_eq r1 thirsty_surplus thirsty_deficit room m2_def by simp
  have t3: "tryTransfer fdiv (Some 1) (Some 2) b m2 = m2"
  proof (cases b)
    case None
    then show ?thesis by (simp add: tryTransfer_null)
  next
    case (Some cb)
    show ?thesis
      unfolding Some tryTransfer_eq r2 thirsty_surplus thirsty_deficit room by simp
  qed
  have t4: "tryTransfer fdiv (Some 2) (Some 0) d m2 = m2"
  proof (cases d)
    case None
    then show ?thesis by (simp add: tryTransfer_null)
  next
    case (Some cd)
    show ?thesis
      unfolding Some tryTransfer_eq r2 thirsty_surplus thirsty_deficit room by simp
  qed
  have "hourPass fdiv \<lparr>north = Some 0, south = Some 1, east = Some 2,
                   canalA = Some a, canalB = b, canalC = Some c, canalD = d\<rparr> cs m = m2"
    unfolding hourPass_def
    by (simp only: Let_def Topology.simps m0_def [symmetric] t1 t2 t3 t4)
  then show ?thesis
    unfolding m2_def m1_def m0_def .
qed

lemma thirsty_pass:
  "hourPass fdiv intendedTopology [0, 1, 2, 3] thirsty =
     scheduleTransfer fdiv (Some 2) 2
       (scheduleTransfer fdiv (Some 0) 2 (closeAllCanals [0, 1, 2, 3] thirsty))"
  unfolding intendedTopology_def by (rule thirsty_pass_any) (simp add: thirsty_def)

text \<open>
  C10. The bound by the safe surplus holds for each canal, not for their sum. In the
  manager \<open>thirsty\<close> the safe surplus of North is 2, South and East both lack more than
  that and have room for more, and one hourly pass schedules the amount 2 on each of the
  two canals out of North, whatever the division rounds to: 4 in all, more than the
  surplus of North. When the quotient of 2 by 3.6 is positive, both canals are open at
  the end of the pass, each with that quotient, at most 1, as its rate.
\<close>

theorem surplus_not_bounded_in_aggregate:
  "computeSafeSurplus (Some (regionHeap thirsty 0)) = 2
   \<and> hourPass fdiv intendedTopology [0, 1, 2, 3] thirsty =
       scheduleTransfer fdiv (Some 2) 2
         (scheduleTransfer fdiv (Some 0) 2 (closeAllCanals [0, 1, 2, 3] thirsty))
   \<and> computeSafeSurplus (Some (regionHeap thirsty 0)) < 2 + 2
   \<and> (0 < fdiv 2 3.6 \<longrightarrow>
        isOpen (canalHeap (hourPass fdiv intendedTopology [0, 1, 2, 3] thirsty) 0)
        \<and> isOpen (canalHeap (hourPass fdiv intendedTopology [0, 1, 2, 3] thirsty) 2)
        \<and> flowRate (canalHeap (hourPass fdiv intendedTopology [0, 1, 2, 3] thirsty) 0)
            = min (fdiv 2 3.6) 1
        \<and> flowRate (canalHeap (hourPass fdiv intendedTopology [0, 1, 2, 3] thirsty) 2)
            = min (fdiv 2 3.6) 1)"
proof -
  have s: "computeSafeSurplus (Some (regionHeap thirsty 0)) = 2"
    by (simp add: thirsty_def thirsty_surplus)
  have rates: "isOpen (canalHeap (hourPass fdiv intendedTopology [0, 1, 2, 3] thirsty) 0)
        \<and> isOpen (canalHeap (hourPass fdiv intendedTopology [0, 1, 2, 3] thirsty) 2)
        \<and> flowRate (canalHeap (hourPass fdiv intendedTopology [0, 1, 2, 3] thirsty) 0)
            = min (fdiv 2 3.6) 1
        \<and> flowRate (canalHeap (hourPass fdiv intendedTopology [0, 1, 2, 3] thirsty) 2)
            = min (fdiv 2 3.6) 1"
    if "0 < fdiv 2 3.6"
    unfolding thirsty_pass scheduleTransfer_eq using that by simp
  show ?thesis
    unfolding s using thirsty_pass [of fdiv] rates by simp
qed

text \<open>With the quotient of the reals each of the two rates moves 2 in the hour; the
  quotient of doubles is positive and at most 1.\<close>

theorem surplus_not_bounded_in_aggregate_witness:
  "computeSafeSurplus (Some (regionHeap thirsty 0)) = 2
   \<and> isOpen (canalHeap (hourPass (/) intendedTopology [0, 1, 2, 3] thirsty) 0)
   \<and> isOpen (canalHeap (hourPass (/) intendedTopology [0, 1, 2, 3] thirsty) 2)
   \<and> 3.6 * flowRate (canalHeap (hourPass (/) intendedTopology [0, 1, 2, 3] thirsty) 0) = 2
   \<and> 3.6 * flowRate (canalHeap (hourPass (/) intendedTopology [0, 1, 2, 3] thirsty) 2) = 2
   \<and> computeSafeSurplus (Some (regionHeap thirsty 0))
       < 3.6 * flowRate (canalHeap (hourPass (/) intendedTopology [0, 1, 2, 3] thirsty) 0)
         + 3.6 * flowRate (canalHeap (hourPass (/) intendedTopology [0, 1, 2, 3] thirsty) 2)
   \<and> 0 < double_div 2 3.6
   \<and> isOpen (canalHeap (hourPass double_div intendedTopology [0, 1, 2, 3] thirsty) 0)
   \<and> isOpen (canalHeap (hourPass double_div intendedTopology [0, 1, 2, 3] thirsty) 2)
   \<and> flowRate (canalHeap (hourPass double_div intendedTopology [0, 1, 2, 3] thirsty) 0)
       = double_div 2 3.6
   \<and> flowRate (canalHeap (hourPass double_div intendedTopology [0, 1, 2, 3] thirsty) 2)
       = double_div 2 3.6"
proof -
  define pe where "pe = hourPass (/) intendedTopology [0, 1, 2, 3] thirsty"
  define pd where "pd = hourPass double_div intendedTopology [0, 1, 2, 3] thirsty"
  have exact: "(0::real) < 2 / 3.6" "min ((2::real) / 3.6) 1 = 2 / 3.6" by simp_all
  have d: "0 < double_div 2 3.6" by (rule double_div_two)
  have "double_div 2 3.6 \<le> 1" by (rule double_div_le_one) simp_all
  then have d': "min (double_div 2 3.6) 1 = double_div 2 3.6" by simp
  have s: "computeSafeSurplus (Some (regionHeap thirsty 0)) = 2"
    using surplus_not_bounded_in_aggregate [of "(/)"] by blast
  have e: "isOpen (canalHeap pe 0) \<and> isOpen (canalHeap pe 2)
      \<and> flowRate (canalHeap pe 0) = 2 / 3.6 \<and> flowRate (canalHeap pe 2) = 2 / 3.6"
    using surplus_not_bounded_in_aggregate [of "(/)", unfolded exact(2)] exact(1)
    unfolding pe_def by blast
  have dd: "isOpen (canalHeap pd 0) \<and> isOpen (canalHeap pd 2)
      \<and> flowRate (canalHeap pd 0) = double_div 2 3.6
      \<and> flowRate (canalHeap pd 2) = double_div 2 3.6"
    using surplus_not_bounded_in_aggregate [of double_div, unfolded d'] d
    unfolding pd_def by blast
  show ?thesis
    unfolding pe_def [symmetric] pd_def [symmetric] s
    using e dd d by simp
qed


section \<open>The notice and the hourly loop\<close>

lemma sumTotals_foldl:
  "sumTotals h rs (w, n) =
     (foldl (\<lambda>a r. a + waterLevel (h r)) w rs, foldl (\<lambda>a r. a + waterNeed (h r)) n rs)"
  by (induction rs arbitrary: w n) simp_all

lemma hourPass_clock:
  "hour (hourPass fdiv t cs m) = hour m" "SimulationMax (hourPass fdiv t cs m) = SimulationMax m"
  "isSolved (hourPass fdiv t cs m) = isSolved m"
  by (subst hourPass_frame, simp)+

lemma funpow_first: "(f ^^ Suc n) x = (f ^^ n) (f x)"
  by (simp add: funpow_swap1)

text \<open>What the loop returns: the manager after the first number of rounds (a pass, then
  the engine step) at which the loop condition fails.\<close>

lemma hourLoop_Some:
  "hourLoop fuel fdiv nexthour t cs m = Some m' \<Longrightarrow>
   \<exists>n\<le>fuel. m' = ((\<lambda>x. nexthour (hourPass fdiv t cs x)) ^^ n) m
     \<and> \<not> (\<not> isSolved m' \<and> hour m' \<noteq> SimulationMax m')
     \<and> (\<forall>k<n. \<not> isSolved (((\<lambda>x. nexthour (hourPass fdiv t cs x)) ^^ k) m)
               \<and> hour (((\<lambda>x. nexthour (hourPass fdiv t cs x)) ^^ k) m)
                   \<noteq> SimulationMax (((\<lambda>x. nexthour (hourPass fdiv t cs x)) ^^ k) m))"
proof (induction fuel arbitrary: m)
  case 0
  then have "m' = m" "\<not> (\<not> isSolved m \<and> hour m \<noteq> SimulationMax m)"
    by (auto split: if_splits)
  then show ?case by simp
next
  case (Suc fuel)
  let ?f = "\<lambda>x. nexthour (hourPass fdiv t cs x)"
  show ?case
  proof (cases "\<not> isSolved m \<and> hour m \<noteq> SimulationMax m")
    case False
    with Suc.prems have "m' = m" by simp
    with False have "m' = (?f ^^ 0) m \<and> \<not> (\<not> isSolved m' \<and> hour m' \<noteq> SimulationMax m')
        \<and> (\<forall>k<0::nat. \<not> isSolved ((?f ^^ k) m) \<and> hour ((?f ^^ k) m) \<noteq> SimulationMax ((?f ^^ k) m))"
      by simp
    then show ?thesis by blast
  next
    case True
    with Suc.prems have "hourLoop fuel fdiv nexthour t cs (?f m) = Some m'"
      by simp
    from Suc.IH [OF this] obtain n where n: "n \<le> fuel" "m' = (?f ^^ n) (?f m)"
      "\<not> (\<not> isSolved m' \<and> hour m' \<noteq> SimulationMax m')"
      "\<forall>k<n. \<not> isSolved ((?f ^^ k) (?f m))
               \<and> hour ((?f ^^ k) (?f m)) \<noteq> SimulationMax ((?f ^^ k) (?f m))"
      by blast
    have all: "\<not> isSolved ((?f ^^ k) m) \<and> hour ((?f ^^ k) m) \<noteq> SimulationMax ((?f ^^ k) m)"
      if "k < Suc n" for k
    proof (cases k)
      case 0
      with True show ?thesis by simp
    next
      case (Suc j)
      with that have "j < n" by simp
      with n(4) show ?thesis unfolding Suc funpow_first by blast
    qed
    have "Suc n \<le> Suc fuel" using n(1) by simp
    moreover have "m' = (?f ^^ Suc n) m" unfolding funpow_first by (rule n(2))
    ultimately show ?thesis using n(3) all by blast
  qed
qed

lemma hourLoop_None:
  "hourLoop fuel fdiv nexthour t cs m = None \<Longrightarrow> k \<le> fuel \<Longrightarrow>
   \<not> isSolved (((\<lambda>x. nexthour (hourPass fdiv t cs x)) ^^ k) m)
   \<and> hour (((\<lambda>x. nexthour (hourPass fdiv t cs x)) ^^ k) m)
       \<noteq> SimulationMax (((\<lambda>x. nexthour (hourPass fdiv t cs x)) ^^ k) m)"
proof (induction fuel arbitrary: m k)
  case 0
  then show ?case by (auto split: if_splits)
next
  case (Suc fuel)
  let ?f = "\<lambda>x. nexthour (hourPass fdiv t cs x)"
  from Suc.prems(1) have run: "\<not> isSolved m \<and> hour m \<noteq> SimulationMax m"
    by (auto split: if_splits)
  with Suc.prems(1) have rest: "hourLoop fuel fdiv nexthour t cs (?f m) = None"
    by simp
  show ?case
  proof (cases k)
    case 0
    with run show ?thesis by simp
  next
    case (Suc j)
    with Suc.prems(2) have "j \<le> fuel" by simp
    from Suc.IH [OF rest this] show ?thesis unfolding Suc funpow_first .
  qed
qed

lemma hourLoop_returns:
  assumes engine: "\<And>x. hour (nexthour x) = hour x + 1 \<and> SimulationMax (nexthour x) = SimulationMax x"
  shows "hour m \<le> SimulationMax m \<Longrightarrow> nat (SimulationMax m - hour m) \<le> fuel
         \<Longrightarrow> \<exists>m'. hourLoop fuel fdiv nexthour t cs m = Some m'"
proof (induction fuel arbitrary: m)
  case 0
  then have "hour m = SimulationMax m" by simp
  then show ?case by simp
next
  case (Suc fuel)
  show ?case
  proof (cases "\<not> isSolved m \<and> hour m \<noteq> SimulationMax m")
    case True
    let ?n = "nexthour (hourPass fdiv t cs m)"
    have h: "hour ?n = hour m + 1" and s: "SimulationMax ?n = SimulationMax m"
      using engine [of "hourPass fdiv t cs m"] by (simp_all add: hourPass_clock)
    from True Suc.prems have "hour ?n \<le> SimulationMax ?n" "nat (SimulationMax ?n - hour ?n) \<le> fuel"
      unfolding h s by simp_all
    then have "\<exists>m'. hourLoop fuel fdiv nexthour t cs ?n = Some m'"
      by (rule Suc.IH)
    with True show ?thesis by simp
  next
    case False
    then show ?thesis by auto
  qed
qed

text \<open>
  C6. The check of the totals is made once, before the loop: what \<open>solveProblems\<close> writes
  is the two lines of the notice, once, when the levels of the regions, added up in the
  order of the collection, come to less than their needs added up likewise, and nothing
  otherwise, whatever the engine does and however long the loop runs. The loop is the
  same in either case. A round is an hourly pass, over the pointers found by name,
  followed by the step of the engine. When the loop returns, it returns the manager after
  \<open>n\<close> rounds, where \<open>n\<close> is the first number of rounds after which the engine has reported
  solved or the hour is at the limit: after every smaller number of rounds neither was so.
  When the fuel runs out, neither was so after any number of rounds up to the fuel. And the
  loop does return, within \<open>SimulationMax - hour\<close> rounds, when the engine advances the hour
  by one and leaves the limit alone and the hour starts at or below the limit.
\<close>

theorem solveProblems_notice:
  fixes fdiv :: "real \<Rightarrow> real \<Rightarrow> real" and nexthour :: "Manager \<Rightarrow> Manager"
    and manager :: Manager and fuel :: nat
  defines "turn \<equiv> \<lambda>x. nexthour (hourPass fdiv
              (findCanals (canalHeap manager) (canals manager)
                 (findRegions (regionHeap manager) (regions manager) nullTopology))
              (canals manager) x)"
  shows "fst (solveProblems fuel fdiv nexthour manager) =
     (if foldl (\<lambda>a r. a + waterLevel (regionHeap manager r)) 0 (regions manager)
           < foldl (\<lambda>a r. a + waterNeed (regionHeap manager r)) 0 (regions manager)
      then [''>>> Scenario determined unwinnable based on initial conditions.'',
            ''>>> Simulation will run, but a perfect solution is impossible.'']
      else [])
   \<and> (\<forall>m'. snd (solveProblems fuel fdiv nexthour manager) = Some m' \<longrightarrow>
         (\<exists>n\<le>fuel. m' = (turn ^^ n) manager
            \<and> (isSolved m' \<or> hour m' = SimulationMax m')
            \<and> (\<forall>k<n. \<not> isSolved ((turn ^^ k) manager)
                      \<and> hour ((turn ^^ k) manager) \<noteq> SimulationMax ((turn ^^ k) manager))))
   \<and> (snd (solveProblems fuel fdiv nexthour manager) = None \<longrightarrow>
         (\<forall>k\<le>fuel. \<not> isSolved ((turn ^^ k) manager)
                   \<and> hour ((turn ^^ k) manager) \<noteq> SimulationMax ((turn ^^ k) manager)))
   \<and> ((\<forall>x. hour (nexthour x) = hour x + 1 \<and> SimulationMax (nexthour x) = SimulationMax x)
        \<and> hour manager \<le> SimulationMax manager
        \<longrightarrow> (\<exists>m'. snd (solveProblems (nat (SimulationMax manager - hour manager)) fdiv
                          nexthour manager) = Some m'))"
proof -
  have out: "fst (solveProblems fuel fdiv nexthour manager) =
     (if foldl (\<lambda>a r. a + waterLevel (regionHeap manager r)) 0 (regions manager)
           < foldl (\<lambda>a r. a + waterNeed (regionHeap manager r)) 0 (regions manager)
      then [''>>> Scenario determined unwinnable based on initial conditions.'',
            ''>>> Simulation will run, but a perfect solution is impossible.'']
      else [])"
    by (simp add: solveProblems_def Let_def sumTotals_foldl notice_def)
  have run: "snd (solveProblems k fdiv nexthour manager) =
       hourLoop k fdiv nexthour
         (findCanals (canalHeap manager) (canals manager)
            (findRegions (regionHeap manager) (regions manager) nullTopology))
         (canals manager) manager" for k
    by (simp add: solveProblems_def Let_def split: prod.splits)
  have some: "\<exists>n\<le>fuel. m' = (turn ^^ n) manager
            \<and> (isSolved m' \<or> hour m' = SimulationMax m')
            \<and> (\<forall>k<n. \<not> isSolved ((turn ^^ k) manager)
                      \<and> hour ((turn ^^ k) manager) \<noteq> SimulationMax ((turn ^^ k) manager))"
    if "snd (solveProblems fuel fdiv nexthour manager) = Some m'" for m'
    using hourLoop_Some [OF that [unfolded run]] unfolding turn_def by blast
  have none: "\<not> isSolved ((turn ^^ k) manager)
                   \<and> hour ((turn ^^ k) manager) \<noteq> SimulationMax ((turn ^^ k) manager)"
    if "snd (solveProblems fuel fdiv nexthour manager) = None" "k \<le> fuel" for k
    using hourLoop_None [OF that(1) [unfolded run] that(2)] unfolding turn_def .
  have ret: "\<exists>m'. snd (solveProblems (nat (SimulationMax manager - hour manager)) fdiv
                          nexthour manager) = Some m'"
    if e: "\<forall>x. hour (nexthour x) = hour x + 1 \<and> SimulationMax (nexthour x) = SimulationMax x"
      and le: "hour manager \<le> SimulationMax manager"
  proof -
    from e have e': "\<And>x. hour (nexthour x) = hour x + 1 \<and> SimulationMax (nexthour x) = SimulationMax x"
      by blast
    show ?thesis
      unfolding run using hourLoop_returns [OF e' le order_refl] by blast
  qed
  show ?thesis
    using out some none ret by blast
qed

theorem solveProblems_notice_witness:
  "(\<forall>x. hour (tick x) = hour x + 1 \<and> SimulationMax (tick x) = SimulationMax x)
   \<and> hour acequia \<le> SimulationMax acequia
   \<and> fst (solveProblems 2 double_div tick acequia) =
       [''>>> Scenario determined unwinnable based on initial conditions.'',
        ''>>> Simulation will run, but a perfect solution is impossible.'']
   \<and> fst (solveProblems 2 double_div tick (acequia\<lparr>regionHeap := \<lambda>p. northR\<rparr>)) = []
   \<and> (\<exists>m'. snd (solveProblems 2 double_div tick acequia) = Some m')"
proof -
  have e: "\<forall>x. hour (tick x) = hour x + 1 \<and> SimulationMax (tick x) = SimulationMax x"
    by (simp add: tick_def)
  have le: "hour acequia \<le> SimulationMax acequia"
    and two: "nat (SimulationMax acequia - hour acequia) = 2"
    by (simp_all add: acequia_def)
  have short: "foldl (\<lambda>a r. a + waterLevel (regionHeap acequia r)) 0 (regions acequia)
           < foldl (\<lambda>a r. a + waterNeed (regionHeap acequia r)) 0 (regions acequia)"
    by (simp add: acequia_def regionStore_def northR_def southR_def eastR_def)
  have plenty: "\<not> foldl (\<lambda>a r. a + waterLevel (regionHeap (acequia\<lparr>regionHeap := \<lambda>p. northR\<rparr>) r)) 0
               (regions (acequia\<lparr>regionHeap := \<lambda>p. northR\<rparr>))
           < foldl (\<lambda>a r. a + waterNeed (regionHeap (acequia\<lparr>regionHeap := \<lambda>p. northR\<rparr>) r)) 0
               (regions (acequia\<lparr>regionHeap := \<lambda>p. northR\<rparr>))"
    by (simp add: acequia_def northR_def)
  show ?thesis
    using e le short plenty
      solveProblems_notice [of 2 double_div tick acequia]
      solveProblems_notice [of 2 double_div tick "acequia\<lparr>regionHeap := \<lambda>p. northR\<rparr>"]
    unfolding two by simp
qed


section \<open>Looking the canals up by name\<close>

text \<open>When each key occurs in the name of exactly one canal of the collection, and these
  four canals are distinct, the lookup does not depend on the order of the collection.\<close>

lemma findCanals_step:
  "findCanals h (p # cs) t =
     findCanals h cs
       (if str_find (canalName (h p)) ''A'' \<noteq> None then t\<lparr>canalA := Some p\<rparr>
        else if str_find (canalName (h p)) ''B'' \<noteq> None then t\<lparr>canalB := Some p\<rparr>
        else if str_find (canalName (h p)) ''C'' \<noteq> None then t\<lparr>canalC := Some p\<rparr>
        else if str_find (canalName (h p)) ''D'' \<noteq> None then t\<lparr>canalD := Some p\<rparr>
        else t)"
  by simp

lemma findCanals_unique_keys:
  assumes d: "distinct [a, b, c, d]"
    and k: "\<And>p. p \<in> set cs \<Longrightarrow>
               ((str_find (canalName (h p)) ''A'' \<noteq> None) = (p = a))
             \<and> ((str_find (canalName (h p)) ''B'' \<noteq> None) = (p = b))
             \<and> ((str_find (canalName (h p)) ''C'' \<noteq> None) = (p = c))
             \<and> ((str_find (canalName (h p)) ''D'' \<noteq> None) = (p = d))"
  shows "findCanals h cs t =
           t\<lparr>canalA := (if a \<in> set cs then Some a else canalA t),
             canalB := (if b \<in> set cs then Some b else canalB t),
             canalC := (if c \<in> set cs then Some c else canalC t),
             canalD := (if d \<in> set cs then Some d else canalD t)\<rparr>"
  using k
proof (induction cs arbitrary: t)
  case Nil
  show ?case by simp
next
  case (Cons p cs)
  have kp: "((str_find (canalName (h p)) ''A'' \<noteq> None) = (p = a))
             \<and> ((str_find (canalName (h p)) ''B'' \<noteq> None) = (p = b))
             \<and> ((str_find (canalName (h p)) ''C'' \<noteq> None) = (p = c))
             \<and> ((str_find (canalName (h p)) ''D'' \<noteq> None) = (p = d))"
    using Cons.prems [of p] by simp
  have ih: "findCanals h cs t' =
           t'\<lparr>canalA := (if a \<in> set cs then Some a else canalA t'),
             canalB := (if b \<in> set cs then Some b else canalB t'),
             canalC := (if c \<in> set cs then Some c else canalC t'),
             canalD := (if d \<in> set cs then Some d else canalD t')\<rparr>" for t'
    using Cons.prems by (intro Cons.IH) simp
  show ?case
    unfolding findCanals_step ih using kp d by auto
qed

lemma thirsty_regions:
  "findRegions thirstyStore [0, 1, 2] nullTopology =
     nullTopology\<lparr>north := Some 0, south := Some 1, east := Some 2\<rparr>"
  by (simp add: thirstyStore_def)

lemma canalStore_lookup:
  "findCanals canalStore [0, 1, 2, 3] t = t\<lparr>canalA := Some 0, canalB := Some 1, canalC := Some 3\<rparr>"
  "findCanals canalStore [0, 1, 3, 2] t = t\<lparr>canalA := Some 0, canalB := Some 1, canalC := Some 2\<rparr>"
  by (simp_all add: canalStore_def)

text \<open>
  C1. The lookup of the canals at canals named \<open>Canal A\<close> to \<open>Canal D\<close>: the name
  \<open>Canal D\<close> contains the key \<open>C\<close>, which is tested before \<open>D\<close>. With the collection in
  the order A, B, C, D the role North to East goes to canal D; in the order A, B, D, C it
  goes to canal C; the role East to North stays null in both. The hourly pass of the
  manager \<open>thirsty\<close> then schedules the transfer from North to East on canal D in the
  first order and on canal C in the second, and leaves the other of the two closed; the
  canal it schedules on is open after the pass when the quotient of 2 by 3.6 is positive.
\<close>

theorem findCanals_depends_on_order:
  "findCanals canalStore [0, 1, 2, 3] nullTopology =
     nullTopology\<lparr>canalA := Some 0, canalB := Some 1, canalC := Some 3\<rparr>
   \<and> findCanals canalStore [0, 1, 3, 2] nullTopology =
     nullTopology\<lparr>canalA := Some 0, canalB := Some 1, canalC := Some 2\<rparr>
   \<and> canalD (findCanals canalStore [0, 1, 2, 3] nullTopology) = None
   \<and> canalName (canalStore 2) = ''Canal C'' \<and> canalName (canalStore 3) = ''Canal D''
   \<and> hourPass fdiv
        (findCanals (canalHeap thirsty) [0, 1, 2, 3]
           (findRegions (regionHeap thirsty) (regions thirsty) nullTopology))
        [0, 1, 2, 3] thirsty
       = scheduleTransfer fdiv (Some 3) 2
           (scheduleTransfer fdiv (Some 0) 2 (closeAllCanals [0, 1, 2, 3] thirsty))
   \<and> hourPass fdiv
        (findCanals (canalHeap thirsty) [0, 1, 3, 2]
           (findRegions (regionHeap thirsty) (regions thirsty) nullTopology))
        [0, 1, 3, 2] thirsty
       = scheduleTransfer fdiv (Some 2) 2
           (scheduleTransfer fdiv (Some 0) 2 (closeAllCanals [0, 1, 3, 2] thirsty))
   \<and> \<not> isOpen (canalHeap (hourPass fdiv
        (findCanals (canalHeap thirsty) [0, 1, 2, 3]
           (findRegions (regionHeap thirsty) (regions thirsty) nullTopology))
        [0, 1, 2, 3] thirsty) 2)
   \<and> \<not> isOpen (canalHeap (hourPass fdiv
        (findCanals (canalHeap thirsty) [0, 1, 3, 2]
           (findRegions (regionHeap thirsty) (regions thirsty) nullTopology))
        [0, 1, 3, 2] thirsty) 3)
   \<and> (0 < fdiv 2 3.6 \<longrightarrow>
        isOpen (canalHeap (hourPass fdiv
          (findCanals (canalHeap thirsty) [0, 1, 2, 3]
             (findRegions (regionHeap thirsty) (regions thirsty) nullTopology))
          [0, 1, 2, 3] thirsty) 3)
        \<and> isOpen (canalHeap (hourPass fdiv
          (findCanals (canalHeap thirsty) [0, 1, 3, 2]
             (findRegions (regionHeap thirsty) (regions thirsty) nullTopology))
          [0, 1, 3, 2] thirsty) 2))"
proof -
  have rh: "regionHeap thirsty = thirstyStore" and ch: "canalHeap thirsty = canalStore"
    and rs: "regions thirsty = [0, 1, 2]"
    by (simp_all add: thirsty_def)
  have t1: "findCanals canalStore [0, 1, 2, 3] (findRegions thirstyStore [0, 1, 2] nullTopology)
      = \<lparr>north = Some 0, south = Some 1, east = Some 2,
         canalA = Some 0, canalB = Some 1, canalC = Some 3, canalD = None\<rparr>"
    unfolding thirsty_regions canalStore_lookup by (simp add: nullTopology_def)
  have t2: "findCanals canalStore [0, 1, 3, 2] (findRegions thirstyStore [0, 1, 2] nullTopology)
      = \<lparr>north = Some 0, south = Some 1, east = Some 2,
         canalA = Some 0, canalB = Some 1, canalC = Some 2, canalD = None\<rparr>"
    unfolding thirsty_regions canalStore_lookup by (simp add: nullTopology_def)
  have set1: "set [0, 1, 2, 3::nat] = {0, 1, 2, 3}" and set2: "set [0, 1, 3, 2::nat] = {0, 1, 2, 3}"
    by auto
  have p1: "isOpen (canalHeap (scheduleTransfer fdiv (Some 3) 2
              (scheduleTransfer fdiv (Some 0) 2 (closeAllCanals [0, 1, 2, 3] thirsty))) 3)"
    if "0 < fdiv 2 3.6"
    unfolding scheduleTransfer_eq closeAllCanals_eq set1 using that by simp
  have p2: "\<not> isOpen (canalHeap (scheduleTransfer fdiv (Some 3) 2
              (scheduleTransfer fdiv (Some 0) 2 (closeAllCanals [0, 1, 2, 3] thirsty))) 2)"
    unfolding scheduleTransfer_eq closeAllCanals_eq set1 by simp
  have p3: "\<not> isOpen (canalHeap (scheduleTransfer fdiv (Some 2) 2
              (scheduleTransfer fdiv (Some 0) 2 (closeAllCanals [0, 1, 3, 2] thirsty))) 3)"
    unfolding scheduleTransfer_eq closeAllCanals_eq set2 by simp
  have p4: "isOpen (canalHeap (scheduleTransfer fdiv (Some 2) 2
              (scheduleTransfer fdiv (Some 0) 2 (closeAllCanals [0, 1, 3, 2] thirsty))) 2)"
    if "0 < fdiv 2 3.6"
    unfolding scheduleTransfer_eq closeAllCanals_eq set2 using that by simp
  have n: "canalName (canalStore 2) = ''Canal C'' \<and> canalName (canalStore 3) = ''Canal D''"
    by (simp add: canalStore_def)
  have d: "canalD (findCanals canalStore [0, 1, 2, 3] nullTopology) = None"
    unfolding canalStore_lookup by (simp add: nullTopology_def)
  show ?thesis
    unfolding rh ch rs t1 t2 thirsty_pass_any [OF rh]
    using p1 p2 p3 p4 n d canalStore_lookup [of nullTopology] by blast
qed

text \<open>With the quotient of the reals and with the quotient of doubles, both positive at
  2, the pass opens canal D and not canal C in the first order, canal C and not canal D in
  the second.\<close>

theorem findCanals_depends_on_order_witness:
  "(0::real) < 2 / 3.6 \<and> 0 < double_div 2 3.6
   \<and> isOpen (canalHeap (hourPass (/)
        (findCanals (canalHeap thirsty) [0, 1, 2, 3]
           (findRegions (regionHeap thirsty) (regions thirsty) nullTopology))
        [0, 1, 2, 3] thirsty) 3)
   \<and> \<not> isOpen (canalHeap (hourPass (/)
        (findCanals (canalHeap thirsty) [0, 1, 2, 3]
           (findRegions (regionHeap thirsty) (regions thirsty) nullTopology))
        [0, 1, 2, 3] thirsty) 2)
   \<and> \<not> isOpen (canalHeap (hourPass (/)
        (findCanals (canalHeap thirsty) [0, 1, 3, 2]
           (findRegions (regionHeap thirsty) (regions thirsty) nullTopology))
        [0, 1, 3, 2] thirsty) 3)
   \<and> isOpen (canalHeap (hourPass (/)
        (findCanals (canalHeap thirsty) [0, 1, 3, 2]
           (findRegions (regionHeap thirsty) (regions thirsty) nullTopology))
        [0, 1, 3, 2] thirsty) 2)
   \<and> isOpen (canalHeap (hourPass double_div
        (findCanals (canalHeap thirsty) [0, 1, 2, 3]
           (findRegions (regionHeap thirsty) (regions thirsty) nullTopology))
        [0, 1, 2, 3] thirsty) 3)
   \<and> \<not> isOpen (canalHeap (hourPass double_div
        (findCanals (canalHeap thirsty) [0, 1, 2, 3]
           (findRegions (regionHeap thirsty) (regions thirsty) nullTopology))
        [0, 1, 2, 3] thirsty) 2)
   \<and> \<not> isOpen (canalHeap (hourPass double_div
        (findCanals (canalHeap thirsty) [0, 1, 3, 2]
           (findRegions (regionHeap thirsty) (regions thirsty) nullTopology))
        [0, 1, 3, 2] thirsty) 3)
   \<and> isOpen (canalHeap (hourPass double_div
        (findCanals (canalHeap thirsty) [0, 1, 3, 2]
           (findRegions (regionHeap thirsty) (regions thirsty) nullTopology))
        [0, 1, 3, 2] thirsty) 2)"
proof -
  have e: "(0::real) < 2 / 3.6" by simp
  have d: "0 < double_div 2 3.6" by (rule double_div_two)
  show ?thesis
    using e d findCanals_depends_on_order [of "(/)"] findCanals_depends_on_order [of double_div]
    by blast
qed

end
